theory Spec2Isabelle
  imports Main "HOL-Library.AList"
begin

section \<open>Python values\<close>

text \<open>
  Both programs work on the values that \<^verbatim>\<open>json.load\<close> produces: None, booleans, numbers,
  strings, lists and dicts. A Python \<^verbatim>\<open>str\<close> is carried as a \<open>string\<close> (the source only
  compares, concatenates and encodes strings). A dict is an association list in insertion
  order.

  A float is a double: \<open>Finite m e\<close> is the float of value \<open>m * 2 ^ e\<close>, where
  \<open>\<bar>m\<bar> < 2 ^ 53\<close> and \<open>- 1074 \<le> e \<le> 971\<close> for the floats that exist; \<open>Finite 5 (- 1)\<close> is
  \<^verbatim>\<open>2.5\<close> and \<open>Finite 1 1\<close> is \<^verbatim>\<open>2.0\<close>. The negative zero and the three special floats are
  constructors of their own.
\<close>

datatype pyfloat = Finite int int | NegZero | NaN | PosInf | NegInf

datatype pynum = PInt int | PFloat pyfloat

datatype pyval =
    PyNone
  | PyBool bool
  | PyNum pynum
  | PyStr string
  | PyList "pyval list"
  | PyDict "(string \<times> pyval) list"

datatype exn =
    KeyError
  | TypeError
  | ValueError
  | AttributeError
  | JSONDecodeError
  | UnicodeDecodeError
  | HTTPError int string
  | URLError
  | OSError
  | OtherError

subsection \<open>Equality of numbers (\<^verbatim>\<open>==\<close> and \<^verbatim>\<open>!=\<close>)\<close>

text \<open>
  Python compares an int and a float by their exact values, the two zeros are equal, a
  NaN is different from every number (itself included), and \<^verbatim>\<open>True == 1\<close>,
  \<^verbatim>\<open>False == 0\<close>. A number is never equal to None, a string, a list or a dict.
\<close>

definition bin_eq :: "int \<Rightarrow> int \<Rightarrow> int \<Rightarrow> int \<Rightarrow> bool" where
  "bin_eq m1 e1 m2 e2 =
     (let lo = min e1 e2
      in m1 * 2 ^ nat (e1 - lo) = m2 * 2 ^ nat (e2 - lo))"

text \<open>The value \<open>m * 2 ^ e\<close> of a number that has one.\<close>

fun num_val :: "pynum \<Rightarrow> (int \<times> int) option" where
  "num_val (PInt a) = Some (a, 0)"
| "num_val (PFloat (Finite m e)) = Some (m, e)"
| "num_val (PFloat NegZero) = Some (0, 0)"
| "num_val (PFloat NaN) = None"
| "num_val (PFloat PosInf) = None"
| "num_val (PFloat NegInf) = None"

definition num_eq :: "pynum \<Rightarrow> pynum \<Rightarrow> bool" where
  "num_eq v w =
     (case (num_val v, num_val w) of
        (Some a, Some b) \<Rightarrow> bin_eq (fst a) (snd a) (fst b) (snd b)
      | _ \<Rightarrow> (v = PFloat PosInf \<and> w = PFloat PosInf) \<or>
             (v = PFloat NegInf \<and> w = PFloat NegInf))"

fun py_ne :: "pynum \<Rightarrow> pyval \<Rightarrow> bool" where
  "py_ne v (PyNum w) = (\<not> num_eq v w)"
| "py_ne v (PyBool b) = (\<not> num_eq v (PInt (if b then 1 else 0)))"
| "py_ne v _ = True"

fun is_nan :: "pynum \<Rightarrow> bool" where
  "is_nan (PFloat NaN) = True"
| "is_nan _ = False"

subsection \<open>Printing (\<^verbatim>\<open>str\<close>)\<close>

text \<open>The decimal digits of an integer that is not negative, and \<^verbatim>\<open>str\<close> of an int.\<close>

function dec_str :: "int \<Rightarrow> string" where
  "dec_str n =
     (if n < 10 then [char_of (48 + n)]
      else dec_str (n div 10) @ [char_of (48 + n mod 10)])"
  by pat_completeness auto
termination
  by (relation "measure nat") auto

declare dec_str.simps [simp del]

definition int_str :: "int \<Rightarrow> string" where
  "int_str i = (if i < 0 then ''-'' @ dec_str (- i) else dec_str i)"

text \<open>
  \<^verbatim>\<open>repr\<close> of a float prints the shortest decimal that reads back as the float and, among
  the decimals of that length, the one nearest to it. A decimal reads back as the float
  when it lies between the midpoints to the two neighbouring floats; the midpoints
  themselves count when the mantissa is even.

  The mantissa is first shifted into \<open>2 ^ 52 \<le> m < 2 ^ 53\<close>, or down to the least exponent.
\<close>

function canon :: "int \<Rightarrow> int \<Rightarrow> int \<times> int" where
  "canon m e = (if m < 2 ^ 52 \<and> - 1074 < e then canon (2 * m) (e - 1) else (m, e))"
  by pat_completeness auto
termination
  by (relation "measure (\<lambda>(m, e). nat (e + 1074))") auto

declare canon.simps [simp del]

text \<open>The number of zeros between the point and the first digit of \<open>num / den < 1\<close>.\<close>

function lead_zeros :: "int \<Rightarrow> int \<Rightarrow> int" where
  "lead_zeros num den =
     (if 0 < num \<and> 10 * num < den then 1 + lead_zeros (10 * num) den else 0)"
  by pat_completeness auto
termination
  by (relation "measure (\<lambda>(num, den). nat (den - num))") auto

declare lead_zeros.simps [simp del]

text \<open>The integer nearest to \<open>a / b\<close>, the even one of two.\<close>

definition round_half_even :: "int \<Rightarrow> int \<Rightarrow> int" where
  "round_half_even a b =
     (let q = a div b; r = a mod b
      in if b < 2 * r then q + 1
         else if 2 * r = b then q + q mod 2
         else q)"

text \<open>
  The float is \<open>vn / ud\<close> and the midpoints are \<open>lon / ud\<close> and \<open>hin / ud\<close>; its first digit
  has the weight \<open>10 ^ (k - 1)\<close>. With \<open>n\<close> digits, the decimals \<open>d * 10 ^ (k - n)\<close> between
  the midpoints are those with \<open>dmin \<le> d \<le> dmax\<close>; they are counted in units of
  \<open>10 ^ (k - n) = q / p\<close>.
\<close>

definition unit_p :: "int \<Rightarrow> nat \<Rightarrow> int" where
  "unit_p k n = (if k < int n then 10 ^ nat (int n - k) else 1)"

definition unit_q :: "int \<Rightarrow> nat \<Rightarrow> int" where
  "unit_q k n = (if int n \<le> k then 10 ^ nat (k - int n) else 1)"

definition dmin :: "int \<Rightarrow> int \<Rightarrow> bool \<Rightarrow> int \<Rightarrow> nat \<Rightarrow> int" where
  "dmin lon ud incl k n =
     (let a = lon * unit_p k n; b = ud * unit_q k n
      in (a + b - 1) div b + (if \<not> incl \<and> a mod b = 0 then 1 else 0))"

definition dmax :: "int \<Rightarrow> int \<Rightarrow> bool \<Rightarrow> int \<Rightarrow> nat \<Rightarrow> int" where
  "dmax hin ud incl k n =
     (let a = hin * unit_p k n; b = ud * unit_q k n
      in a div b - (if \<not> incl \<and> a mod b = 0 then 1 else 0))"

text \<open>
  The search tries \<open>n = 1, 2, \<dots>\<close> digits and returns the digits \<open>d\<close> nearest to the float
  and the position of the point. Seventeen digits are enough for a float.
\<close>

function shortest :: "int \<Rightarrow> int \<Rightarrow> int \<Rightarrow> int \<Rightarrow> bool \<Rightarrow> int \<Rightarrow> nat \<Rightarrow> int \<times> int" where
  "shortest vn lon hin ud incl k n =
     (if dmin lon ud incl k n \<le> dmax hin ud incl k n \<or> 17 \<le> n then
        (let d = max (dmin lon ud incl k n)
                   (min (dmax hin ud incl k n)
                      (round_half_even (vn * unit_p k n) (ud * unit_q k n)))
         in (d, k + (int (length (dec_str d)) - int n)))
      else shortest vn lon hin ud incl k (Suc n))"
  by pat_completeness auto
termination
  by (relation "measure (\<lambda>(vn, lon, hin, ud, incl, k, n). 17 - n)") auto

declare shortest.simps [simp del]

text \<open>Trailing zeros are not printed.\<close>

function strip_zeros :: "int \<Rightarrow> int" where
  "strip_zeros d = (if 0 < d \<and> d mod 10 = 0 then strip_zeros (d div 10) else d)"
  by pat_completeness auto
termination
  by (relation "measure nat") auto

declare strip_zeros.simps [simp del]

text \<open>
  The digits of the float \<open>m * 2 ^ e\<close> (\<open>m > 0\<close>) and the position of the point. All
  quantities are counted in quarters of the distance to the next float,
  \<open>2 ^ (ec - 2) = un / ud\<close>; the lower neighbour of a power of two is at half the distance.
\<close>

definition float_digits :: "int \<Rightarrow> int \<Rightarrow> string \<times> int" where
  "float_digits m e =
     (let (mc, ec) = canon m e;
          un = (if 2 \<le> ec then 2 ^ nat (ec - 2) else 1);
          ud = (if ec < 2 then 2 ^ nat (2 - ec) else 1);
          delta = (if mc = 2 ^ 52 \<and> - 1074 < ec then 1 else 2);
          vn = 4 * mc * un;
          lon = (4 * mc - delta) * un;
          hin = (4 * mc + 2) * un;
          k = (if ud \<le> vn then int (length (dec_str (vn div ud)))
               else - lead_zeros vn ud);
          (d, decpt) = shortest vn lon hin ud (even mc) k 1
      in (dec_str (strip_zeros d), decpt))"

definition exp_str :: "int \<Rightarrow> string" where
  "exp_str x =
     (if x < 0 then ''-'' else ''+'') @
     (let s = dec_str \<bar>x\<bar> in if length s < 2 then ''0'' @ s else s)"

text \<open>
  The point is placed by the decimal exponent \<open>decpt\<close>: fixed notation for
  \<open>-4 < decpt \<le> 16\<close>, exponent notation outside.
\<close>

definition float_repr :: "pyfloat \<Rightarrow> string" where
  "float_repr x =
     (case x of
        NaN \<Rightarrow> ''nan''
      | PosInf \<Rightarrow> ''inf''
      | NegInf \<Rightarrow> ''-inf''
      | NegZero \<Rightarrow> ''-0.0''
      | Finite m e \<Rightarrow>
          if m = 0 then ''0.0''
          else
            (if m < 0 then ''-'' else '''') @
            (let (ds, decpt) = float_digits \<bar>m\<bar> e;
                 n = int (length ds)
             in if - 4 < decpt \<and> decpt \<le> 16 then
                  (if decpt \<le> 0 then ''0.'' @ replicate (nat (- decpt)) (CHR ''0'') @ ds
                   else if n \<le> decpt then ds @ replicate (nat (decpt - n)) (CHR ''0'') @ ''.0''
                   else take (nat decpt) ds @ ''.'' @ drop (nat decpt) ds)
                else
                  take 1 ds @ (if 1 < n then ''.'' @ drop 1 ds else '''') @
                  ''e'' @ exp_str (decpt - 1)))"

text \<open>
  \<^verbatim>\<open>str\<close> of a value, as an f-string formats it. Python prints a list or a dict with
  \<^verbatim>\<open>repr\<close> of its elements; that function is not modelled and is the parameter \<open>rp\<close>.
\<close>

definition py_str :: "(pyval \<Rightarrow> string) \<Rightarrow> pyval \<Rightarrow> string" where
  "py_str rp v =
     (case v of
        PyNone \<Rightarrow> ''None''
      | PyBool b \<Rightarrow> (if b then ''True'' else ''False'')
      | PyNum (PInt i) \<Rightarrow> int_str i
      | PyNum (PFloat f) \<Rightarrow> float_repr f
      | PyStr s \<Rightarrow> s
      | PyList xs \<Rightarrow> rp v
      | PyDict kvs \<Rightarrow> rp v)"

section \<open>refresh.py: the dataset and \<^verbatim>\<open>merge_updates\<close>\<close>

text \<open>
  A model record is a dict from field names to values. The dataset is the loaded
  \<^verbatim>\<open>data.json\<close>: the list \<^verbatim>\<open>data["models"]\<close> and the string \<^verbatim>\<open>data["last_updated"]\<close>.
  An update set maps a model name to a dict of newly observed prices (numbers).
\<close>

type_synonym model_rec = "(string \<times> pyval) list"

record dataset =
  models :: "model_rec list"
  last_updated :: string

type_synonym prices = "(string \<times> pynum) list"

type_synonym update_set = "(string \<times> prices) list"

text \<open>\<^verbatim>\<open>m.get(field)\<close>: None for a missing key.\<close>

definition dict_get :: "model_rec \<Rightarrow> string \<Rightarrow> pyval" where
  "dict_get m field = (case map_of m field of None \<Rightarrow> PyNone | Some v \<Rightarrow> v)"

text \<open>A list or a dict cannot be a dict key.\<close>

fun hashable :: "pyval \<Rightarrow> bool" where
  "hashable (PyList xs) = False"
| "hashable (PyDict kvs) = False"
| "hashable _ = True"

text \<open>
  \<^verbatim>\<open>model_index = {m["model"]: m for m in data["models"]}\<close>. The records are shared with
  the list, so the index holds the position of each record; a later record with the same
  name replaces an earlier one. \<^verbatim>\<open>m["model"]\<close> raises KeyError when the key is missing,
  and a list or a dict as a key raises TypeError. The loop looks up str names only, so the
  keys of other types (where Python identifies \<^verbatim>\<open>1\<close>, \<^verbatim>\<open>1.0\<close> and \<^verbatim>\<open>True\<close>) are never read.
\<close>

fun build_index :: "model_rec list \<Rightarrow> nat \<Rightarrow> (pyval \<rightharpoonup> nat) \<Rightarrow> exn + (pyval \<rightharpoonup> nat)" where
  "build_index [] i idx = Inr idx"
| "build_index (m # ms) i idx =
     (case map_of m ''model'' of
        None \<Rightarrow> Inl KeyError
      | Some k \<Rightarrow>
          if hashable k then build_index ms (Suc i) (idx(k \<mapsto> i)) else Inl TypeError)"

definition model_index :: "model_rec list \<Rightarrow> exn + (pyval \<rightharpoonup> nat)" where
  "model_index ms = build_index ms 0 Map.empty"

text \<open>The body of the inner loop, for one field of one update.\<close>

definition merge_field ::
  "(pyval \<Rightarrow> string) \<Rightarrow> string \<Rightarrow> prices \<Rightarrow> string \<Rightarrow> model_rec \<times> string list \<Rightarrow>
   model_rec \<times> string list" where
  "merge_field rp model_name new_prices field mc =
     (case map_of new_prices field of
        None \<Rightarrow> mc
      | Some v \<Rightarrow>
          if py_ne v (dict_get (fst mc) field) then
            (let old_val = dict_get (fst mc) field
             in (AList.update field (PyNum v) (fst mc),
                 snd mc @
                 [''  '' @ model_name @ '': '' @ field @ '' $'' @ py_str rp old_val @
                  '' -> $'' @ py_str rp (PyNum v)]))
          else mc)"

text \<open>
  The body of the outer loop, for one item of the update set. The record
  \<^verbatim>\<open>model_index[model_name]\<close> is the one at the indexed position of the list.
\<close>

definition merge_item ::
  "(pyval \<Rightarrow> string) \<Rightarrow> (pyval \<rightharpoonup> nat) \<Rightarrow> string \<times> prices \<Rightarrow>
   model_rec list \<times> string list \<Rightarrow> model_rec list \<times> string list" where
  "merge_item rp idx item st =
     (case idx (PyStr (fst item)) of
        Some i \<Rightarrow>
          (let mc = merge_field rp (fst item) (snd item) ''output_per_mtok''
                      (merge_field rp (fst item) (snd item) ''input_per_mtok''
                         (fst st ! i, snd st))
           in ((fst st)[i := fst mc], snd mc))
      | None \<Rightarrow>
          (fst st,
           snd st @ [''  NEW MODEL FOUND: '' @ fst item @ '' (add manually to data.json)'']))"

fun merge_loop ::
  "(pyval \<Rightarrow> string) \<Rightarrow> (pyval \<rightharpoonup> nat) \<Rightarrow> update_set \<Rightarrow>
   model_rec list \<times> string list \<Rightarrow> model_rec list \<times> string list" where
  "merge_loop rp idx [] st = st"
| "merge_loop rp idx (item # items) st = merge_loop rp idx items (merge_item rp idx item st)"

text \<open>
  \<^verbatim>\<open>merge_updates\<close> changes \<^verbatim>\<open>data\<close> in place and returns the change lines, or
  raises while it builds the index, before any change. Here it returns the dataset after
  the call, together with the lines or the exception.
\<close>

definition merge_updates ::
  "(pyval \<Rightarrow> string) \<Rightarrow> dataset \<Rightarrow> update_set \<Rightarrow> dataset \<times> (exn + string list)" where
  "merge_updates rp data updates =
     (case model_index (models data) of
        Inl e \<Rightarrow> (data, Inl e)
      | Inr idx \<Rightarrow>
          (let st = merge_loop rp idx updates (models data, [])
           in (data\<lparr>models := fst st\<rparr>, Inr (snd st))))"

text \<open>The line reported for an update whose model name is not in the dataset.\<close>

definition notice :: "string \<Rightarrow> string" where
  "notice n = ''  NEW MODEL FOUND: '' @ n @ '' (add manually to data.json)''"

text \<open>Some record of the dataset carries the name \<open>n\<close>.\<close>

definition has_model :: "dataset \<Rightarrow> string \<Rightarrow> bool" where
  "has_model d n = list_ex (\<lambda>m. map_of m ''model'' = Some (PyStr n)) (models d)"

text \<open>No price of the update set is a NaN.\<close>

definition nan_free :: "update_set \<Rightarrow> bool" where
  "nan_free u = (\<forall>item \<in> set u. \<forall>fv \<in> set (snd item). \<not> is_nan (snd fv))"

text \<open>
  A record is settled for a price dict when the comparison of \<^verbatim>\<open>merge_updates\<close> finds
  nothing to overwrite in it.
\<close>

definition field_settled :: "prices \<Rightarrow> model_rec \<Rightarrow> string \<Rightarrow> bool" where
  "field_settled ps m field =
     (case map_of ps field of None \<Rightarrow> True | Some v \<Rightarrow> \<not> py_ne v (dict_get m field))"

definition settled :: "prices \<Rightarrow> model_rec \<Rightarrow> bool" where
  "settled ps m =
     (field_settled ps m ''input_per_mtok'' \<and> field_settled ps m ''output_per_mtok'')"

definition all_settled :: "(pyval \<rightharpoonup> nat) \<Rightarrow> update_set \<Rightarrow> model_rec list \<Rightarrow> bool" where
  "all_settled idx u ms =
     (\<forall>item \<in> set u. \<forall>i. idx (PyStr (fst item)) = Some i \<longrightarrow> settled (snd item) (ms ! i))"

text \<open>The fields of a record that are not a price.\<close>

definition other_fields :: "model_rec \<Rightarrow> model_rec" where
  "other_fields m =
     filter (\<lambda>kv. fst kv \<noteq> ''input_per_mtok'' \<and> fst kv \<noteq> ''output_per_mtok'') m"

section \<open>refresh.py: fetching, the parsers and \<^verbatim>\<open>main\<close>\<close>

text \<open>
  What the run takes from outside: the page behind a URL (\<^verbatim>\<open>urlopen\<close>, \<^verbatim>\<open>read\<close> and
  \<^verbatim>\<open>decode\<close> together), \<^verbatim>\<open>re.findall\<close> with \<^verbatim>\<open>re.IGNORECASE\<close>, \<^verbatim>\<open>repr\<close> of lists and
  dicts, and the date of the day. Standard output is modelled for the parsers only, as the
  list of printed lines beside the returned dict.
\<close>

record world =
  http_get :: "string \<Rightarrow> exn + string"
  re_findall :: "string \<Rightarrow> string \<Rightarrow> string list"
  py_repr :: "pyval \<Rightarrow> string"
  today :: string

definition PRICING_URLS :: "(string \<times> string) list" where
  "PRICING_URLS =
     [(''openai'', ''https://openai.com/api/pricing/''),
      (''anthropic'', ''https://docs.anthropic.com/en/docs/about-claude/models''),
      (''google'', ''https://ai.google.dev/gemini-api/docs/pricing''),
      (''mistral'', ''https://mistral.ai/pricing''),
      (''deepseek'', ''https://api-docs.deepseek.com/quick_start/pricing''),
      (''cohere'', ''https://cohere.com/pricing''),
      (''meta_fireworks'', ''https://fireworks.ai/pricing'')]"

text \<open>
  \<^verbatim>\<open>fetch_url\<close> returns None for an URLError, an HTTPError or an OSError; any other
  exception leaves the function.
\<close>

fun caught :: "exn \<Rightarrow> bool" where
  "caught URLError = True"
| "caught (HTTPError code body) = True"
| "caught OSError = True"
| "caught _ = False"

definition fetch_url :: "world \<Rightarrow> string \<Rightarrow> exn + string option" where
  "fetch_url w url =
     (case http_get w url of
        Inr text \<Rightarrow> Inr (Some text)
      | Inl e \<Rightarrow> if caught e then Inr None else Inl e)"

definition parse_openai :: "string \<Rightarrow> update_set \<times> string list" where
  "parse_openai html =
     (let results = []
      in (results, [''  [INFO] OpenAI parser: page fetched, manual review recommended'']))"

definition parse_anthropic :: "string \<Rightarrow> update_set \<times> string list" where
  "parse_anthropic html =
     (let results = []
      in (results, [''  [INFO] Anthropic parser: page fetched, manual review recommended'']))"

definition parse_google :: "string \<Rightarrow> update_set \<times> string list" where
  "parse_google html =
     (let results = []
      in (results, [''  [INFO] Google parser: page fetched, manual review recommended'']))"

definition parse_mistral :: "string \<Rightarrow> update_set \<times> string list" where
  "parse_mistral html =
     (let results = []
      in (results, [''  [INFO] Mistral parser: page fetched, manual review recommended'']))"

text \<open>The pattern of \<^verbatim>\<open>parse_deepseek\<close>; \<open>bsl\<close> is the backslash.\<close>

definition bsl :: string where
  "bsl = [CHR 0x5C]"

definition price_pattern :: string where
  "price_pattern =
     bsl @ ''$('' @ bsl @ ''d+'' @ bsl @ ''.?'' @ bsl @ ''d*)'' @ bsl @ ''s*(?:per|/)'' @
     bsl @ ''s*(?:million|1M|MTok)''"

definition parse_deepseek ::
  "(string \<Rightarrow> string \<Rightarrow> string list) \<Rightarrow> string \<Rightarrow> update_set \<times> string list" where
  "parse_deepseek findall html =
     (let results = [];
          matches = findall price_pattern html
      in if matches \<noteq> [] then
           (results,
            [''  [INFO] DeepSeek parser: found '' @ dec_str (int (length matches)) @
             '' price references, manual review recommended''])
         else
           (results, [''  [INFO] DeepSeek parser: page fetched, manual review recommended'']))"

definition parse_cohere :: "string \<Rightarrow> update_set \<times> string list" where
  "parse_cohere html =
     (let results = []
      in (results, [''  [INFO] Cohere parser: page fetched, manual review recommended'']))"

definition parse_fireworks :: "string \<Rightarrow> update_set \<times> string list" where
  "parse_fireworks html =
     (let results = []
      in (results, [''  [INFO] Fireworks parser: page fetched, manual review recommended'']))"

definition PARSERS :: "world \<Rightarrow> (string \<times> (string \<Rightarrow> update_set \<times> string list)) list" where
  "PARSERS w =
     [(''openai'', parse_openai),
      (''anthropic'', parse_anthropic),
      (''google'', parse_google),
      (''mistral'', parse_mistral),
      (''deepseek'', parse_deepseek (re_findall w)),
      (''cohere'', parse_cohere),
      (''meta_fireworks'', parse_fireworks)]"

text \<open>\<^verbatim>\<open>all_updates.update(updates)\<close>: each item is stored under its key, in order.\<close>

definition dict_update :: "update_set \<Rightarrow> update_set \<Rightarrow> update_set" where
  "dict_update all_updates updates =
     fold (\<lambda>kv acc. AList.update (fst kv) (snd kv) acc) updates all_updates"

text \<open>The loop over the providers in \<^verbatim>\<open>main\<close>.\<close>

fun fetch_all :: "world \<Rightarrow> (string \<times> string) list \<Rightarrow> update_set \<Rightarrow> exn + update_set" where
  "fetch_all w [] all_updates = Inr all_updates"
| "fetch_all w (pu # rest) all_updates =
     (case fetch_url w (snd pu) of
        Inl e \<Rightarrow> Inl e
      | Inr None \<Rightarrow> fetch_all w rest all_updates
      | Inr (Some html) \<Rightarrow>
          (case map_of (PARSERS w) (fst pu) of
             Some parser \<Rightarrow> fetch_all w rest (dict_update all_updates (fst (parser html)))
           | None \<Rightarrow> fetch_all w rest all_updates))"

text \<open>
  \<^verbatim>\<open>print_diff\<close> indexes the records of both datasets by name, with the comprehension
  of \<^verbatim>\<open>merge_updates\<close>, which raises where a record has no \<^verbatim>\<open>model\<close> key or an unhashable
  one. Its loop compares and prints only: the printed lines are not modelled, and the
  result is the exception, if any.
\<close>

definition print_diff :: "dataset \<Rightarrow> dataset \<Rightarrow> exn option" where
  "print_diff old_data new_data =
     (case model_index (models old_data) of
        Inl e \<Rightarrow> Some e
      | Inr old_models \<Rightarrow>
          (case model_index (models new_data) of
             Inl e \<Rightarrow> Some e
           | Inr new_models \<Rightarrow> None))"

text \<open>
  \<^verbatim>\<open>main\<close>, from the loaded dataset on: the dataset at the end of the run, and what
  \<^verbatim>\<open>save_data\<close> writes (nothing in a dry run). \<^verbatim>\<open>old_data\<close> is the copy of the loaded
  dataset; \<^verbatim>\<open>print_diff\<close> runs before \<^verbatim>\<open>save_data\<close>, in a dry run too.
\<close>

definition main :: "world \<Rightarrow> bool \<Rightarrow> dataset \<Rightarrow> exn + dataset \<times> dataset option" where
  "main w dry_run data =
     (case fetch_all w PRICING_URLS [] of
        Inl e \<Rightarrow> Inl e
      | Inr all_updates \<Rightarrow>
          (let old_data = data;
               merged = (if all_updates \<noteq> [] then merge_updates (py_repr w) data all_updates
                         else (data, Inr []))
           in case snd merged of
                Inl e \<Rightarrow> Inl e
              | Inr changes \<Rightarrow>
                  (let data' = (fst merged)\<lparr>last_updated := today w\<rparr>
                   in case print_diff old_data data' of
                        Some e \<Rightarrow> Inl e
                      | None \<Rightarrow> Inr (data', if dry_run then None else Some data'))))"

section \<open>proxy.py: the handler\<close>

text \<open>
  The handler talks to the client through \<^verbatim>\<open>send_response\<close>, \<^verbatim>\<open>send_header\<close>,
  \<^verbatim>\<open>end_headers\<close> and \<^verbatim>\<open>wfile.write\<close>, and to the target through \<^verbatim>\<open>urlopen\<close>. A run
  of the handler is the list of these calls in order, and the exception that left the
  handler, if one did.
\<close>

record request =
  full_url :: pyval
  data :: string
  added_headers :: "(string \<times> pyval) list"
  timeout :: nat

record response =
  status :: int
  content_type :: "string option"
  resp_body :: string

datatype effect =
    SendResponse int
  | SendHeader string string
  | EndHeaders
  | Write string
  | Urlopen request

text \<open>
  The library calls of the handler: \<^verbatim>\<open>int\<close> on the Content-Length header,
  \<^verbatim>\<open>json.loads\<close>, \<^verbatim>\<open>json.dumps\<close> followed by \<^verbatim>\<open>encode\<close>, the \<^verbatim>\<open>hostname\<close> of
  \<^verbatim>\<open>urlparse\<close>, the exception of the \<^verbatim>\<open>Request\<close> constructor if it raises one, and
  \<^verbatim>\<open>urlopen\<close> with \<^verbatim>\<open>read\<close>, whose \<^verbatim>\<open>HTTPError\<close> carries the code and the body of
  the target's answer. A str and its UTF-8 encoding are the same \<open>string\<close>.
\<close>

record pylib =
  py_int :: "string \<Rightarrow> exn + int"
  json_loads :: "string \<Rightarrow> exn + pyval"
  json_dumps :: "pyval \<Rightarrow> string"
  urlparse_hostname :: "pyval \<Rightarrow> exn + string option"
  Request_raises :: "pyval \<Rightarrow> string \<Rightarrow> exn option"
  urlopen :: "request \<Rightarrow> exn + response"

record http_request =
  path :: string
  content_length :: "string option"
  rfile :: string

definition ALLOWED_HOSTS :: "string list" where
  "ALLOWED_HOSTS =
     [''api.openai.com'', ''api.anthropic.com'', ''generativelanguage.googleapis.com'']"

definition cors_headers :: "effect list" where
  "cors_headers =
     [SendHeader ''Access-Control-Allow-Origin'' ''*'',
      SendHeader ''Access-Control-Allow-Methods'' ''POST, OPTIONS'',
      SendHeader ''Access-Control-Allow-Headers'' ''Content-Type'']"

definition do_OPTIONS :: "effect list \<times> exn option" where
  "do_OPTIONS = ([SendResponse 204] @ cors_headers @ [EndHeaders], None)"

text \<open>\<^verbatim>\<open>rfile.read(length)\<close>: at most \<open>length\<close> bytes, all of them for a negative length.\<close>

definition rfile_read :: "string \<Rightarrow> int \<Rightarrow> string" where
  "rfile_read bs n = (if n < 0 then bs else take (nat n) bs)"

definition read_body :: "pylib \<Rightarrow> http_request \<Rightarrow> exn + string" where
  "read_body lib rq =
     (case (case content_length rq of None \<Rightarrow> Inr 0 | Some s \<Rightarrow> py_int lib s) of
        Inl e \<Rightarrow> Inl e
      | Inr len \<Rightarrow> Inr (rfile_read (rfile rq) len))"

text \<open>\<^verbatim>\<open>payload.get(key, default)\<close>.\<close>

definition payload_get :: "(string \<times> pyval) list \<Rightarrow> string \<Rightarrow> pyval \<Rightarrow> pyval" where
  "payload_get kvs key dflt = (case map_of kvs key of None \<Rightarrow> dflt | Some v \<Rightarrow> v)"

text \<open>\<^verbatim>\<open>f"{host}"\<close> for a hostname, which is a str or None.\<close>

definition host_str :: "string option \<Rightarrow> string" where
  "host_str host = (case host of None \<Rightarrow> ''None'' | Some h \<Rightarrow> h)"

text \<open>
  Lines 66 to 69: the bytes sent to the target, and the request with the headers added to
  it in order, the payload's first and \<^verbatim>\<open>Accept-Encoding: identity\<close> last.
\<close>

definition body_bytes :: "pylib \<Rightarrow> pyval \<Rightarrow> string" where
  "body_bytes lib body = (case body of PyStr s \<Rightarrow> s | _ \<Rightarrow> json_dumps lib body)"

definition make_request :: "pyval \<Rightarrow> string \<Rightarrow> (string \<times> pyval) list \<Rightarrow> request" where
  "make_request url bytes items =
     \<lparr>full_url = url, data = bytes,
      added_headers = items @ [(''Accept-Encoding'', PyStr ''identity'')],
      timeout = 120\<rparr>"

text \<open>Lines 66 to 88: the call to the target and the relay of its answer.\<close>

definition relay :: "pylib \<Rightarrow> pyval \<Rightarrow> pyval \<Rightarrow> pyval \<Rightarrow> effect list \<times> exn option" where
  "relay lib url headers body =
     (case Request_raises lib url (body_bytes lib body) of
        Some e \<Rightarrow> ([], Some e)
      | None \<Rightarrow>
          (case headers of
             PyDict items \<Rightarrow>
               (let req = make_request url (body_bytes lib body) items
                in case urlopen lib req of
                     Inr resp \<Rightarrow>
                       ([Urlopen req, SendResponse (status resp)] @ cors_headers @
                        (case content_type resp of
                           None \<Rightarrow> []
                         | Some val \<Rightarrow> if val \<noteq> [] then [SendHeader ''Content-Type'' val] else []) @
                        [EndHeaders, Write (resp_body resp)],
                        None)
                   | Inl (HTTPError code error_body) \<Rightarrow>
                       ([Urlopen req, SendResponse code] @ cors_headers @
                        [SendHeader ''Content-Type'' ''application/json'', EndHeaders,
                         Write error_body],
                        None)
                   | Inl e \<Rightarrow> ([Urlopen req], Some e))
           | _ \<Rightarrow> ([], Some AttributeError)))"

definition do_POST :: "pylib \<Rightarrow> http_request \<Rightarrow> effect list \<times> exn option" where
  \<open>do_POST lib rq =
     (if path rq \<noteq> ''/proxy'' then ([SendResponse 404, EndHeaders], None)
      else
        case read_body lib rq of
          Inl e \<Rightarrow> ([], Some e)
        | Inr raw \<Rightarrow>
            (case json_loads lib raw of
               Inl JSONDecodeError \<Rightarrow>
                 ([SendResponse 400, EndHeaders, Write ''{"error":"Invalid JSON"}''], None)
             | Inl e \<Rightarrow> ([], Some e)
             | Inr (PyDict payload) \<Rightarrow>
                 (let url = payload_get payload ''url'' (PyStr []);
                      headers = payload_get payload ''headers'' (PyDict []);
                      body = payload_get payload ''body'' (PyStr [])
                  in case urlparse_hostname lib url of
                       Inl e \<Rightarrow> ([], Some e)
                     | Inr host \<Rightarrow>
                         if host \<notin> set (map Some ALLOWED_HOSTS) then
                           ([SendResponse 403] @ cors_headers @
                            [EndHeaders,
                             Write (json_dumps lib
                                      (PyDict [(''error'',
                                                PyStr (''Host not allowed: '' @ host_str host))]))],
                            None)
                         else relay lib url headers body)
             | Inr _ \<Rightarrow> ([], Some AttributeError)))\<close>

text \<open>The calls to the target in a run.\<close>

fun outbound_calls :: "effect list \<Rightarrow> request list" where
  "outbound_calls [] = []"
| "outbound_calls (Urlopen req # es) = req # outbound_calls es"
| "outbound_calls (e # es) = outbound_calls es"

text \<open>The status lines, the headers and the body bytes sent to the client in a run.\<close>

fun statuses :: "effect list \<Rightarrow> int list" where
  "statuses [] = []"
| "statuses (SendResponse c # es) = c # statuses es"
| "statuses (e # es) = statuses es"


fun written :: "effect list \<Rightarrow> string list" where
  "written [] = []"
| "written (Write b # es) = b # written es"
| "written (e # es) = written es"

section \<open>Concrete inputs\<close>

text \<open>
  A dataset with two records and two update sets, for running \<^verbatim>\<open>merge_updates\<close>.
\<close>

definition gpt4o_data :: dataset where
  "gpt4o_data =
     \<lparr>models =
        [[(''model'', PyStr ''gpt-4o''),
          (''provider'', PyStr ''OpenAI''),
          (''input_per_mtok'', PyNum (PFloat (Finite 5 (- 1)))),
          (''output_per_mtok'', PyNum (PFloat (Finite 5 1))),
          (''context_window'', PyNum (PInt 128000)),
          (''tags'', PyList [PyStr ''multimodal''])],
         [(''model'', PyStr ''o3-mini''),
          (''input_per_mtok'', PyNum (PFloat (Finite 4953959590107546 (- 52)))),
          (''output_per_mtok'', PyNum (PFloat (Finite 4953959590107546 (- 50))))]],
      last_updated = ''2025-01-15''\<rparr>"

definition gpt4o_index :: "pyval \<rightharpoonup> nat" where
  "gpt4o_index = [PyStr ''gpt-4o'' \<mapsto> 0, PyStr ''o3-mini'' \<mapsto> 1]"

definition gpt4o_update :: update_set where
  "gpt4o_update = [(''gpt-4o'', [(''input_per_mtok'', PFloat (Finite 1 1))])]"

definition gpt4o_merged :: dataset where
  "gpt4o_merged =
     \<lparr>models =
        [[(''model'', PyStr ''gpt-4o''),
          (''provider'', PyStr ''OpenAI''),
          (''input_per_mtok'', PyNum (PFloat (Finite 1 1))),
          (''output_per_mtok'', PyNum (PFloat (Finite 5 1))),
          (''context_window'', PyNum (PInt 128000)),
          (''tags'', PyList [PyStr ''multimodal''])],
         [(''model'', PyStr ''o3-mini''),
          (''input_per_mtok'', PyNum (PFloat (Finite 4953959590107546 (- 52)))),
          (''output_per_mtok'', PyNum (PFloat (Finite 4953959590107546 (- 50))))]],
      last_updated = ''2025-01-15''\<rparr>"

definition new_model_update :: update_set where
  "new_model_update =
     [(''gpt-4o'', [(''input_per_mtok'', PFloat (Finite 1 1))]),
      (''gpt-5'', [(''input_per_mtok'', PFloat (Finite 5 (- 2)))])]"

text \<open>
  A library instance for running the handler: \<^verbatim>\<open>int\<close> reads decimal digits; the decoder
  knows five bodies and, as \<^verbatim>\<open>json.loads\<close> does, raises \<^verbatim>\<open>UnicodeDecodeError\<close> on the
  single byte \<^verbatim>\<open>0xFF\<close>; \<^verbatim>\<open>urlparse\<close> raises \<^verbatim>\<open>ValueError\<close> on \<^verbatim>\<open>http://[\<close>, as Python's
  does; the target answers 200 on the OpenAI URL and 401 on the Anthropic one.
\<close>

definition digits_int :: "string \<Rightarrow> exn + int" where
  "digits_int s =
     (if s \<noteq> [] \<and> list_all (\<lambda>c. 48 \<le> (of_char c :: nat) \<and> (of_char c :: nat) \<le> 57) s
      then Inr (foldl (\<lambda>a c. 10 * a + (int (of_char c) - 48)) 0 s)
      else Inl ValueError)"

definition evil_payload :: pyval where
  "evil_payload =
     PyDict [(''url'', PyStr ''https://evil.example.com/x''), (''headers'', PyDict []),
             (''body'', PyStr ''{}'')]"

definition openai_payload :: pyval where
  "openai_payload =
     PyDict [(''url'', PyStr ''https://api.openai.com/v1/x''), (''headers'', PyDict []),
             (''body'', PyStr ''{}'')]"

definition anthropic_payload :: pyval where
  "anthropic_payload =
     PyDict [(''url'', PyStr ''https://api.anthropic.com/v1/messages''),
             (''headers'', PyDict [(''x-api-key'', PyStr ''k'')]),
             (''body'', PyDict [(''model'', PyStr ''m'')])]"

definition example_loads :: "string \<Rightarrow> exn + pyval" where
  \<open>example_loads raw =
     (if raw = ''{"url":"https://evil.example.com/x","headers":{},"body":"{}"}''
        then Inr evil_payload
      else if raw = ''{"url":"https://api.openai.com/v1/x","headers":{},"body":"{}"}''
        then Inr openai_payload
      else if raw = ''{"url":"https://api.anthropic.com/v1/messages","headers":{"x-api-key":"k"},"body":{"model":"m"}}''
        then Inr anthropic_payload
      else if raw = ''{"headers":{}}'' then Inr (PyDict [(''headers'', PyDict [])])
      else if raw = ''{"url":"http://["}'' then Inr (PyDict [(''url'', PyStr ''http://['')])
      else if raw = [CHR 0xFF] then Inl UnicodeDecodeError
      else Inl JSONDecodeError)\<close>

definition example_dumps :: "pyval \<Rightarrow> string" where
  \<open>example_dumps v =
     (case v of
        PyDict [(k, PyStr s)] \<Rightarrow> ''{"'' @ k @ ''": "'' @ s @ ''"}''
      | _ \<Rightarrow> ''null'')\<close>

definition example_hostname :: "pyval \<Rightarrow> exn + string option" where
  "example_hostname url =
     (if url = PyStr ''https://evil.example.com/x'' then Inr (Some ''evil.example.com'')
      else if url = PyStr ''https://api.openai.com/v1/x'' then Inr (Some ''api.openai.com'')
      else if url = PyStr ''https://api.anthropic.com/v1/messages''
        then Inr (Some ''api.anthropic.com'')
      else if url = PyStr ''http://['' then Inl ValueError
      else Inr None)"

definition example_urlopen :: "request \<Rightarrow> exn + response" where
  \<open>example_urlopen req =
     (if full_url req = PyStr ''https://api.openai.com/v1/x'' then
        Inr \<lparr>status = 200, content_type = Some ''application/json'',
             resp_body = ''{"ok":true}''\<rparr>
      else if full_url req = PyStr ''https://api.anthropic.com/v1/messages'' then
        Inl (HTTPError 401 ''{"error":"unauthorized"}'')
      else Inl URLError)\<close>

definition example_lib :: pylib where
  "example_lib =
     \<lparr>py_int = digits_int, json_loads = example_loads, json_dumps = example_dumps,
      urlparse_hostname = example_hostname, Request_raises = (\<lambda>url bytes. None),
      urlopen = example_urlopen\<rparr>"







definition undecodable_request :: http_request where
  "undecodable_request =
     \<lparr>path = ''/proxy'', content_length = Some ''1'', rfile = [CHR 0xFF]\<rparr>"

section \<open>Properties of \<^verbatim>\<open>merge_updates\<close>\<close>

subsection \<open>The index\<close>

lemma build_index_cong:
  "map (\<lambda>m. map_of m ''model'') ms = map (\<lambda>m. map_of m ''model'') ms' \<Longrightarrow>
   build_index ms n idx0 = build_index ms' n idx0"
proof (induction ms arbitrary: ms' n idx0)
  case Nil
  then show ?case by simp
next
  case (Cons m ms)
  then obtain m' ms'' where ms': "ms' = m' # ms''" by (cases ms') auto
  with Cons.prems have h: "map_of m ''model'' = map_of m' ''model''"
    and t: "map (\<lambda>m. map_of m ''model'') ms = map (\<lambda>m. map_of m ''model'') ms''"
    by auto
  show ?case
  proof (cases "map_of m' ''model''")
    case None
    then show ?thesis using h by (simp add: ms')
  next
    case (Some k)
    then show ?thesis using h Cons.IH [OF t, of "Suc n" "idx0(k \<mapsto> n)"]
      by (simp add: ms' del: fun_upd_apply)
  qed
qed

lemma build_index_pos:
  "build_index ms n idx0 = Inr idx \<Longrightarrow> idx k = Some i \<Longrightarrow>
   idx0 k = Some i \<or> (n \<le> i \<and> i < n + length ms \<and> map_of (ms ! (i - n)) ''model'' = Some k)"
proof (induction ms arbitrary: n idx0)
  case Nil
  then show ?case by simp
next
  case (Cons m ms)
  from Cons.prems(1) obtain k' where k': "map_of m ''model'' = Some k'" "hashable k'"
    and rest: "build_index ms (Suc n) (idx0(k' \<mapsto> n)) = Inr idx"
    by (auto split: option.splits if_splits)
  from Cons.IH [OF rest Cons.prems(2)]
  show ?case
  proof
    assume "(idx0(k' \<mapsto> n)) k = Some i"
    then show ?thesis using k' by (auto split: if_splits)
  next
    assume later: "Suc n \<le> i \<and> i < Suc n + length ms \<and>
      map_of (ms ! (i - Suc n)) ''model'' = Some k"
    then have "i - n = Suc (i - Suc n)" by arith
    then have "n \<le> i" "i < n + length (m # ms)" "(m # ms) ! (i - n) = ms ! (i - Suc n)"
      using later by simp_all
    then show ?thesis using later by simp
  qed
qed

lemma model_index_pos:
  "model_index ms = Inr idx \<Longrightarrow> idx k = Some i \<Longrightarrow>
   i < length ms \<and> map_of (ms ! i) ''model'' = Some k"
  unfolding model_index_def by (drule (1) build_index_pos) simp

lemma build_index_dom:
  "build_index ms n idx0 = Inr idx \<Longrightarrow>
   dom idx = dom idx0 \<union> {k. \<exists>m \<in> set ms. map_of m ''model'' = Some k}"
proof (induction ms arbitrary: n idx0)
  case Nil
  then show ?case by simp
next
  case (Cons m ms)
  from Cons.prems(1) obtain k' where k': "map_of m ''model'' = Some k'"
    and rest: "build_index ms (Suc n) (idx0(k' \<mapsto> n)) = Inr idx"
    by (auto split: option.splits if_splits)
  have "dom idx = dom (idx0(k' \<mapsto> n)) \<union> {k. \<exists>m \<in> set ms. map_of m ''model'' = Some k}"
    by (rule Cons.IH [OF rest])
  moreover have "dom (idx0(k' \<mapsto> n)) = insert k' (dom idx0)" by simp
  ultimately show ?case using k' by auto
qed

lemma model_index_None:
  "model_index ms = Inr idx \<Longrightarrow>
   idx k = None \<longleftrightarrow> (\<forall>m \<in> set ms. map_of m ''model'' \<noteq> Some k)"
proof -
  assume "model_index ms = Inr idx"
  then have "dom idx = {k. \<exists>m \<in> set ms. map_of m ''model'' = Some k}"
    unfolding model_index_def using build_index_dom [of ms 0 Map.empty idx] by simp
  then have "k \<notin> dom idx \<longleftrightarrow> (\<forall>m \<in> set ms. map_of m ''model'' \<noteq> Some k)"
    by blast
  then show ?thesis by (simp add: domIff)
qed

lemma has_model_index:
  "model_index (models d) = Inr idx \<Longrightarrow> has_model d n \<longleftrightarrow> idx (PyStr n) \<noteq> None"
  by (simp add: has_model_def list_ex_iff model_index_None)

subsection \<open>What the loop leaves alone\<close>

lemma filter_update_other:
  "\<forall>v. \<not> P (k, v) \<Longrightarrow> filter P (AList.update k v al) = filter P al"
  by (induction al) auto

lemma merge_field_filter:
  "\<forall>v. \<not> P (field, v) \<Longrightarrow> filter P (fst (merge_field rp n ps field mc)) = filter P (fst mc)"
  by (simp add: merge_field_def Let_def filter_update_other split: option.splits)

lemma merge_field_other:
  "f \<noteq> field \<Longrightarrow> map_of (fst (merge_field rp n ps field mc)) f = map_of (fst mc) f"
  by (simp add: merge_field_def Let_def update_conv' split: option.splits)

lemma merge_item_length: "length (fst (merge_item rp idx item st)) = length (fst st)"
  by (simp add: merge_item_def Let_def split: option.splits)

lemma merge_item_filter:
  assumes "\<forall>v. \<not> P (''input_per_mtok'', v)" "\<forall>v. \<not> P (''output_per_mtok'', v)"
  shows "filter P (fst (merge_item rp idx item st) ! j) = filter P (fst st ! j)"
proof (cases "idx (PyStr (fst item))")
  case None
  then show ?thesis by (simp add: merge_item_def)
next
  case (Some i)
  show ?thesis
  proof (cases "j = i \<and> i < length (fst st)")
    case True
    then show ?thesis using Some assms
      by (simp add: merge_item_def Let_def merge_field_filter)
  next
    case False
    then have "(fst st)[i := x] ! j = fst st ! j" for x
      by (cases "i < length (fst st)") (simp_all add: list_update_beyond)
    then show ?thesis using Some
      by (simp add: merge_item_def Let_def)
  qed
qed

lemma merge_loop_length: "length (fst (merge_loop rp idx u st)) = length (fst st)"
  by (induction u arbitrary: st) (simp_all add: merge_item_length)

lemma merge_loop_filter:
  assumes "\<forall>v. \<not> P (''input_per_mtok'', v)" "\<forall>v. \<not> P (''output_per_mtok'', v)"
  shows "filter P (fst (merge_loop rp idx u st) ! j) = filter P (fst st ! j)"
  using assms by (induction u arbitrary: st) (simp_all add: merge_item_filter)

lemma merge_item_other:
  assumes "f \<noteq> ''input_per_mtok''" "f \<noteq> ''output_per_mtok''"
  shows "map_of (fst (merge_item rp idx item st) ! j) f = map_of (fst st ! j) f"
proof (cases "idx (PyStr (fst item))")
  case None
  then show ?thesis by (simp add: merge_item_def)
next
  case (Some i)
  show ?thesis
  proof (cases "j = i \<and> i < length (fst st)")
    case True
    then show ?thesis using Some assms
      by (simp add: merge_item_def Let_def merge_field_other)
  next
    case False
    then have "(fst st)[i := x] ! j = fst st ! j" for x
      by (cases "i < length (fst st)") (simp_all add: list_update_beyond)
    then show ?thesis using Some
      by (simp add: merge_item_def Let_def)
  qed
qed

lemma merge_loop_other:
  assumes "f \<noteq> ''input_per_mtok''" "f \<noteq> ''output_per_mtok''"
  shows "map_of (fst (merge_loop rp idx u st) ! j) f = map_of (fst st ! j) f"
  using assms by (induction u arbitrary: st) (simp_all add: merge_item_other)

lemma merge_loop_index:
  "model_index (fst (merge_loop rp idx u st)) = model_index (fst st)"
  unfolding model_index_def
  by (rule build_index_cong) (simp add: list_eq_iff_nth_eq merge_loop_length merge_loop_other)

lemma merge_item_untouched:
  "idx (PyStr (fst item)) \<noteq> Some i \<Longrightarrow> fst (merge_item rp idx item st) ! i = fst st ! i"
  by (auto simp: merge_item_def Let_def split: option.splits)

lemma merge_loop_untouched:
  "\<forall>item \<in> set u. idx (PyStr (fst item)) \<noteq> Some i \<Longrightarrow>
   fst (merge_loop rp idx u st) ! i = fst st ! i"
  by (induction u arbitrary: st) (simp_all add: merge_item_untouched)

lemma merge_updates_Inr:
  "merge_updates rp d u = (d', Inr ch) \<Longrightarrow>
   \<exists>idx. model_index (models d) = Inr idx \<and>
         d' = d\<lparr>models := fst (merge_loop rp idx u (models d, []))\<rparr> \<and>
         ch = snd (merge_loop rp idx u (models d, []))"
  by (auto simp: merge_updates_def Let_def split: sum.splits)

subsection \<open>The change lines are appended\<close>

lemma merge_field_changes:
  "merge_field rp n ps f (m, ch) =
     (fst (merge_field rp n ps f (m, [])), ch @ snd (merge_field rp n ps f (m, [])))"
  by (simp add: merge_field_def Let_def split: option.splits)

lemma merge_item_changes:
  "merge_item rp idx item (ms, ch) =
     (fst (merge_item rp idx item (ms, [])), ch @ snd (merge_item rp idx item (ms, [])))"
proof (cases "idx (PyStr (fst item))")
  case None
  then show ?thesis by (simp add: merge_item_def)
next
  case (Some i)
  let ?f = "\<lambda>c. merge_field rp (fst item) (snd item) ''input_per_mtok'' (ms ! i, c)"
  let ?g = "\<lambda>mc. merge_field rp (fst item) (snd item) ''output_per_mtok'' mc"
  have 1: "?f ch = (fst (?f []), ch @ snd (?f []))"
    by (rule merge_field_changes)
  have 2: "?g (fst (?f []), ch @ snd (?f [])) =
           (fst (?g (fst (?f []), [])), (ch @ snd (?f [])) @ snd (?g (fst (?f []), [])))"
    by (rule merge_field_changes)
  have 3: "?g (?f []) = (fst (?g (fst (?f []), [])), snd (?f []) @ snd (?g (fst (?f []), [])))"
    using merge_field_changes
      [of rp "fst item" "snd item" "''output_per_mtok''" "fst (?f [])" "snd (?f [])"]
    by simp
  have "?g (?f ch) = (fst (?g (?f [])), ch @ snd (?g (?f [])))"
    by (simp add: 1 2 3)
  then show ?thesis using Some by (simp add: merge_item_def Let_def)
qed

lemma merge_loop_changes:
  "merge_loop rp idx u (ms, ch) =
     (fst (merge_loop rp idx u (ms, [])), ch @ snd (merge_loop rp idx u (ms, [])))"
proof (induction u arbitrary: ms ch)
  case Nil
  then show ?case by simp
next
  case (Cons item items)
  obtain ms1 c1 where st1: "merge_item rp idx item (ms, []) = (ms1, c1)"
    by (cases "merge_item rp idx item (ms, [])")
  have a: "merge_item rp idx item (ms, ch) = (ms1, ch @ c1)"
    using merge_item_changes [of rp idx item ms ch] st1 by simp
  show ?case
    using Cons.IH [of ms1 "ch @ c1"] Cons.IH [of ms1 c1] by (simp add: a st1)
qed

lemma merge_loop_append:
  "merge_loop rp idx (u1 @ u2) st = merge_loop rp idx u2 (merge_loop rp idx u1 st)"
  by (induction u1 arbitrary: st) simp_all

lemma merge_loop_absent:
  assumes "idx (PyStr n) = None"
  shows "merge_loop rp idx (u1 @ (n, ps) # u2) (ms, []) =
           (fst (merge_loop rp idx (u1 @ u2) (ms, [])),
            snd (merge_loop rp idx u1 (ms, [])) @ notice n #
            snd (merge_loop rp idx u2 (fst (merge_loop rp idx u1 (ms, [])), [])))"
    and "snd (merge_loop rp idx (u1 @ u2) (ms, [])) =
            snd (merge_loop rp idx u1 (ms, [])) @
            snd (merge_loop rp idx u2 (fst (merge_loop rp idx u1 (ms, [])), []))"
proof -
  obtain ms1 c1 where st1: "merge_loop rp idx u1 (ms, []) = (ms1, c1)"
    by (cases "merge_loop rp idx u1 (ms, [])")
  obtain ms2 c2 where st2: "merge_loop rp idx u2 (ms1, []) = (ms2, c2)"
    by (cases "merge_loop rp idx u2 (ms1, [])")
  have item: "merge_item rp idx (n, ps) (ms1, c1) = (ms1, c1 @ [notice n])"
    using assms by (simp add: merge_item_def notice_def)
  have a: "merge_loop rp idx u2 (ms1, c1 @ [notice n]) = (ms2, (c1 @ [notice n]) @ c2)"
    using merge_loop_changes [of rp idx u2 ms1 "c1 @ [notice n]"] st2 by simp
  have b: "merge_loop rp idx u2 (ms1, c1) = (ms2, c1 @ c2)"
    using merge_loop_changes [of rp idx u2 ms1 c1] st2 by simp
  show "merge_loop rp idx (u1 @ (n, ps) # u2) (ms, []) =
           (fst (merge_loop rp idx (u1 @ u2) (ms, [])),
            snd (merge_loop rp idx u1 (ms, [])) @ notice n #
            snd (merge_loop rp idx u2 (fst (merge_loop rp idx u1 (ms, [])), [])))"
    by (simp add: merge_loop_append st1 st2 item a b)
  show "snd (merge_loop rp idx (u1 @ u2) (ms, [])) =
            snd (merge_loop rp idx u1 (ms, [])) @
            snd (merge_loop rp idx u2 (fst (merge_loop rp idx u1 (ms, [])), []))"
    by (simp add: merge_loop_append st1 st2 b)
qed

subsection \<open>A merged update is settled\<close>

lemma bin_eq_refl: "bin_eq m e m e"
  by (simp add: bin_eq_def)

lemma num_eq_refl: "\<not> is_nan v \<Longrightarrow> num_eq v v"
proof (cases v)
  case (PInt a)
  then show ?thesis by (simp add: num_eq_def bin_eq_refl)
next
  case (PFloat f)
  assume "\<not> is_nan v"
  then show ?thesis unfolding PFloat by (cases f) (simp_all add: num_eq_def bin_eq_refl)
qed

lemma py_ne_self: "\<not> is_nan v \<Longrightarrow> \<not> py_ne v (PyNum v)"
  by (simp add: num_eq_refl)

lemma dict_get_update_same: "dict_get (AList.update f v m) f = v"
  by (simp add: dict_get_def update_conv')

lemma merge_field_settles:
  "map_of ps field = Some v \<Longrightarrow> \<not> is_nan v \<Longrightarrow>
   \<not> py_ne v (dict_get (fst (merge_field rp n ps field mc)) field)"
  by (simp add: merge_field_def Let_def dict_get_update_same py_ne_self del: py_ne.simps)

lemma merge_field_get_other:
  "g \<noteq> field \<Longrightarrow> dict_get (fst (merge_field rp n ps field mc)) g = dict_get (fst mc) g"
  by (simp add: dict_get_def merge_field_other)

lemma merge_fields_settled:
  assumes "\<forall>fv \<in> set ps. \<not> is_nan (snd fv)"
  shows "settled ps (fst (merge_field rp n ps ''output_per_mtok''
                       (merge_field rp n ps ''input_per_mtok'' mc)))"
proof -
  have nn: "\<not> is_nan v" if "map_of ps f = Some v" for f v
    using assms map_of_SomeD [OF that] by force
  let ?m1 = "merge_field rp n ps ''input_per_mtok'' mc"
  let ?m2 = "merge_field rp n ps ''output_per_mtok'' ?m1"
  have inp: "\<not> py_ne v (dict_get (fst ?m2) ''input_per_mtok'')"
    if "map_of ps ''input_per_mtok'' = Some v" for v
    using merge_field_settles [OF that nn [OF that], of rp n mc]
    by (simp add: merge_field_get_other del: py_ne.simps)
  have out: "\<not> py_ne v (dict_get (fst ?m2) ''output_per_mtok'')"
    if "map_of ps ''output_per_mtok'' = Some v" for v
    using merge_field_settles [OF that nn [OF that], of rp n ?m1] .
  show ?thesis
    unfolding settled_def field_settled_def using inp out
    by (simp split: option.splits del: py_ne.simps)
qed

lemma merge_field_settled_id:
  "field_settled ps (fst mc) field \<Longrightarrow> merge_field rp n ps field mc = mc"
  by (simp add: merge_field_def field_settled_def split: option.splits)

lemma merge_item_settled_id:
  assumes "idx (PyStr n) = Some i" "settled ps (ms ! i)"
  shows "merge_item rp idx (n, ps) (ms, ch) = (ms, ch)"
proof -
  have 1: "merge_field rp n ps ''input_per_mtok'' (ms ! i, ch) = (ms ! i, ch)"
    by (rule merge_field_settled_id) (use assms(2) in \<open>simp add: settled_def\<close>)
  have 2: "merge_field rp n ps ''output_per_mtok'' (ms ! i, ch) = (ms ! i, ch)"
    by (rule merge_field_settled_id) (use assms(2) in \<open>simp add: settled_def\<close>)
  show ?thesis using assms(1) by (simp add: merge_item_def 1 2)
qed

lemma merge_item_settles:
  assumes "idx (PyStr (fst item)) = Some i" "i < length (fst st)"
    "\<forall>fv \<in> set (snd item). \<not> is_nan (snd fv)"
  shows "settled (snd item) (fst (merge_item rp idx item st) ! i)"
  using assms by (simp add: merge_item_def Let_def merge_fields_settled)

lemma merge_loop_settles:
  assumes "distinct (map fst u)" "nan_free u"
    and inj: "\<And>n n' i. idx (PyStr n) = Some i \<Longrightarrow> idx (PyStr n') = Some i \<Longrightarrow> n = n'"
    and bound: "\<And>n i. idx (PyStr n) = Some i \<Longrightarrow> i < length (fst st)"
  shows "all_settled idx u (fst (merge_loop rp idx u st))"
  using assms(1,2) bound
proof (induction u arbitrary: st)
  case Nil
  then show ?case by (simp add: all_settled_def)
next
  case (Cons item items)
  let ?st1 = "merge_item rp idx item st"
  have d: "distinct (map fst items)" and nf: "nan_free items"
    and nitem: "\<forall>fv \<in> set (snd item). \<not> is_nan (snd fv)"
    and fresh: "fst item \<notin> fst ` set items"
    using Cons.prems by (auto simp: nan_free_def)
  have b1: "\<And>n i. idx (PyStr n) = Some i \<Longrightarrow> i < length (fst ?st1)"
    using Cons.prems(3) by (simp add: merge_item_length)
  have tail: "all_settled idx items (fst (merge_loop rp idx items ?st1))"
    by (rule Cons.IH [OF d nf b1])
  have head: "settled (snd item) (fst (merge_loop rp idx items ?st1) ! i)"
    if i: "idx (PyStr (fst item)) = Some i" for i
  proof -
    have "\<forall>it \<in> set items. idx (PyStr (fst it)) \<noteq> Some i"
    proof (intro ballI notI)
      fix it assume it: "it \<in> set items" "idx (PyStr (fst it)) = Some i"
      then have "fst item = fst it" using inj [OF i] by blast
      with it(1) fresh show False by force
    qed
    then have "fst (merge_loop rp idx items ?st1) ! i = fst ?st1 ! i"
      by (rule merge_loop_untouched)
    then show ?thesis
      using merge_item_settles [of idx item i st rp, OF i Cons.prems(3) [OF i] nitem] by simp
  qed
  show ?case using tail head by (auto simp: all_settled_def)
qed

lemma merge_loop_settled_id:
  "all_settled idx u ms \<Longrightarrow>
   merge_loop rp idx u (ms, ch) =
     (ms, ch @ map notice (filter (\<lambda>n. idx (PyStr n) = None) (map fst u)))"
proof (induction u arbitrary: ch)
  case Nil
  then show ?case by simp
next
  case (Cons item items)
  obtain n ps where item: "item = (n, ps)" by (cases item)
  have rest: "all_settled idx items ms" using Cons.prems by (simp add: all_settled_def)
  show ?case
  proof (cases "idx (PyStr n)")
    case None
    then have "merge_item rp idx item (ms, ch) = (ms, ch @ [notice n])"
      by (simp add: merge_item_def item notice_def)
    then show ?thesis using Cons.IH [OF rest] None by (simp add: item)
  next
    case (Some i)
    then have "settled ps (ms ! i)" using Cons.prems by (simp add: all_settled_def item)
    with Some have "merge_item rp idx item (ms, ch) = (ms, ch)"
      unfolding item by (rule merge_item_settled_id [of idx])
    then show ?thesis using Cons.IH [OF rest] Some by (simp add: item)
  qed
qed

subsection \<open>Runs on the concrete dataset\<close>

lemma float_repr_2_5: "float_repr (Finite 5 (- 1)) = ''2.5''"
  by code_simp

lemma float_repr_2_00: "float_repr (Finite 1 1) = ''2.0''"
  by code_simp

lemma gpt4o_data_index: "model_index (models gpt4o_data) = Inr gpt4o_index"
  by (simp add: model_index_def gpt4o_data_def gpt4o_index_def)

lemma gpt4o_run:
  "merge_updates (\<lambda>v. ''?'') gpt4o_data gpt4o_update =
     (gpt4o_merged, Inr [''  gpt-4o: input_per_mtok $2.5 -> $2.0''])"
  unfolding gpt4o_data_def gpt4o_update_def gpt4o_merged_def by code_simp

lemma new_model_run:
  "merge_updates (\<lambda>v. ''?'') gpt4o_data new_model_update =
     (gpt4o_merged,
          Inr [''  gpt-4o: input_per_mtok $2.5 -> $2.0'',
           ''  NEW MODEL FOUND: gpt-5 (add manually to data.json)''])"
  unfolding gpt4o_data_def new_model_update_def gpt4o_merged_def by code_simp

section \<open>The claims on \<^verbatim>\<open>merge_updates\<close>\<close>

text \<open>
  C5, as the code has it. A second merge of the same update set leaves the dataset of the
  first merge as it is, and it reports no price change: its lines are the
  \<^verbatim>\<open>NEW MODEL FOUND\<close> notices, one for each name of the update set that no record carries,
  so none at all when every name is in the dataset. (A merge that raises changes nothing,
  and the second merge raises the same.) The update set is a dict, so its keys are
  distinct, and none of its prices is a NaN, which Python finds different from itself.
\<close>

theorem merge_twice:
  assumes keys: "distinct (map fst u)" and nf: "nan_free u"
  shows "merge_updates rp (fst (merge_updates rp d u)) u =
           (fst (merge_updates rp d u),
            case snd (merge_updates rp d u) of
              Inl e \<Rightarrow> Inl e
            | Inr ch \<Rightarrow> Inr (map notice (filter (\<lambda>n. \<not> has_model d n) (map fst u))))"
proof (cases "model_index (models d)")
  case (Inl e)
  then show ?thesis by (simp add: merge_updates_def)
next
  case (Inr idx)
  let ?ms' = "fst (merge_loop rp idx u (models d, []))"
  have first: "merge_updates rp d u =
      (d\<lparr>models := ?ms'\<rparr>, Inr (snd (merge_loop rp idx u (models d, []))))"
    using Inr by (simp add: merge_updates_def Let_def)
  have idx': "model_index ?ms' = Inr idx"
    using Inr by (simp add: merge_loop_index)
  have inj: "n = n'" if "idx (PyStr n) = Some i" "idx (PyStr n') = Some i" for n n' i
    using model_index_pos [OF Inr that(1)] model_index_pos [OF Inr that(2)] by simp
  have bound: "i < length (fst (models d, [] :: string list))"
    if "idx (PyStr n) = Some i" for n i
    using model_index_pos [OF Inr that] by simp
  have "all_settled idx u ?ms'"
    using keys nf inj bound by (rule merge_loop_settles)
  then have loop: "merge_loop rp idx u (?ms', []) =
      (?ms', map notice (filter (\<lambda>n. idx (PyStr n) = None) (map fst u)))"
    using merge_loop_settled_id [of idx u ?ms' rp "[]"] by simp
  have "(\<lambda>n. idx (PyStr n) = None) = (\<lambda>n. \<not> has_model d n)"
    using has_model_index [OF Inr] by auto
  with loop idx' have second: "merge_updates rp (d\<lparr>models := ?ms'\<rparr>) u =
      (d\<lparr>models := ?ms'\<rparr>,
       Inr (map notice (filter (\<lambda>n. \<not> has_model d n) (map fst u))))"
    by (simp add: merge_updates_def)
  show ?thesis unfolding first by (simp add: second)
qed

theorem merge_twice_witness:
  "distinct (map fst new_model_update) \<and> nan_free new_model_update \<and>
   merge_updates (\<lambda>v. ''?'') gpt4o_data new_model_update =
     (gpt4o_merged,
      Inr [''  gpt-4o: input_per_mtok $2.5 -> $2.0'',
           ''  NEW MODEL FOUND: gpt-5 (add manually to data.json)'']) \<and>
   merge_updates (\<lambda>v. ''?'') gpt4o_merged new_model_update =
     (gpt4o_merged, Inr [''  NEW MODEL FOUND: gpt-5 (add manually to data.json)''])"
proof -
  have keys: "distinct (map fst new_model_update)"
    by (simp add: new_model_update_def)
  have nf: "nan_free new_model_update"
    by (simp add: new_model_update_def nan_free_def)
  have names: "filter (\<lambda>n. \<not> has_model gpt4o_data n) (map fst new_model_update) = [''gpt-5'']"
    by (simp add: new_model_update_def has_model_def gpt4o_data_def)
  show ?thesis
    using merge_twice [OF keys nf, of "\<lambda>v. ''?''" gpt4o_data] new_model_run keys nf
    by (simp add: names notice_def)
qed

text \<open>
  C5 as stated fails: the update set names \<^verbatim>\<open>gpt-5\<close>, which the dataset does not have.
  The merge leaves the dataset as it is and reports one line, so the second merge is the
  same call and reports the same line, not zero lines.
\<close>

theorem merge_twice_counterexample:
  "merge_updates (\<lambda>v. ''?'') gpt4o_data
     [(''gpt-5'', [(''input_per_mtok'', PFloat (Finite 5 (- 2)))])] =
     (gpt4o_data, Inr [''  NEW MODEL FOUND: gpt-5 (add manually to data.json)'']) \<and>
   [''  NEW MODEL FOUND: gpt-5 (add manually to data.json)''] \<noteq> []"
  unfolding gpt4o_data_def by code_simp

text \<open>
  C6. A merge, also one that raises, keeps the number of records and the date, and in
  every record it keeps the fields other than \<^verbatim>\<open>input_per_mtok\<close> and \<^verbatim>\<open>output_per_mtok\<close>: the same keys with the
  same values in the same order. An item of the update set whose name no record carries
  adds its notice to the lines and nothing else: without the item the merge gives the same
  dataset and the other lines.
\<close>

theorem merge_frame:
  "length (models (fst (merge_updates rp d u))) = length (models d) \<and>
   last_updated (fst (merge_updates rp d u)) = last_updated d \<and>
   map other_fields (models (fst (merge_updates rp d u))) = map other_fields (models d) \<and>
   (\<forall>d' ch u1 n ps u2.
      merge_updates rp d u = (d', Inr ch) \<and> u = u1 @ (n, ps) # u2 \<and> \<not> has_model d n \<longrightarrow>
      (\<exists>ch1 ch2. ch = ch1 @ notice n # ch2 \<and>
                 merge_updates rp d (u1 @ u2) = (d', Inr (ch1 @ ch2))))"
proof -
  have frame: "length (models (fst (merge_updates rp d u))) = length (models d) \<and>
      last_updated (fst (merge_updates rp d u)) = last_updated d \<and>
      map other_fields (models (fst (merge_updates rp d u))) = map other_fields (models d)"
  proof (cases "model_index (models d)")
    case (Inl e)
    then show ?thesis by (simp add: merge_updates_def)
  next
    case (Inr idx)
    let ?ms' = "fst (merge_loop rp idx u (models d, []))"
    have len: "length ?ms' = length (models d)"
      by (simp add: merge_loop_length)
    have "other_fields (?ms' ! j) = other_fields (models d ! j)" for j
      unfolding other_fields_def using merge_loop_filter [of _ rp idx u "(models d, [])" j]
      by simp
    then have "map other_fields ?ms' = map other_fields (models d)"
      using len by (simp add: list_eq_iff_nth_eq)
    then show ?thesis using Inr len by (simp add: merge_updates_def Let_def)
  qed
  have absent: "\<exists>ch1 ch2. ch = ch1 @ notice n # ch2 \<and>
      merge_updates rp d (u1 @ u2) = (d', Inr (ch1 @ ch2))"
    if run: "merge_updates rp d u = (d', Inr ch)"
      and u: "u = u1 @ (n, ps) # u2" and n: "\<not> has_model d n" for d' ch u1 n ps u2
  proof -
    from merge_updates_Inr [OF run] obtain idx where idx: "model_index (models d) = Inr idx"
      and d': "d' = d\<lparr>models := fst (merge_loop rp idx u (models d, []))\<rparr>"
      and ch: "ch = snd (merge_loop rp idx u (models d, []))"
      by blast
    have none: "idx (PyStr n) = None" using has_model_index [OF idx] n by simp
    let ?c1 = "snd (merge_loop rp idx u1 (models d, []))"
    let ?c2 = "snd (merge_loop rp idx u2 (fst (merge_loop rp idx u1 (models d, [])), []))"
    have "ch = ?c1 @ notice n # ?c2"
      by (simp add: ch u merge_loop_absent(1) [of idx n, OF none])
    moreover have "merge_updates rp d (u1 @ u2) = (d', Inr (?c1 @ ?c2))"
      using merge_loop_absent(2) [of idx n rp u1 u2 "models d", OF none]
      by (simp add: merge_updates_def idx d' u merge_loop_absent(1) [of idx n, OF none])
    ultimately show ?thesis by blast
  qed
  show ?thesis using frame absent by blast
qed

theorem merge_frame_witness:
  "merge_updates (\<lambda>v. ''?'') gpt4o_data new_model_update =
     (gpt4o_merged,
      Inr [''  gpt-4o: input_per_mtok $2.5 -> $2.0'',
           ''  NEW MODEL FOUND: gpt-5 (add manually to data.json)'']) \<and>
   \<not> has_model gpt4o_data ''gpt-5'' \<and>
   length (models gpt4o_merged) = length (models gpt4o_data) \<and>
   last_updated gpt4o_merged = last_updated gpt4o_data \<and>
   map other_fields (models gpt4o_merged) = map other_fields (models gpt4o_data) \<and>
   (\<exists>ch1 ch2.
      [''  gpt-4o: input_per_mtok $2.5 -> $2.0'',
       ''  NEW MODEL FOUND: gpt-5 (add manually to data.json)''] =
        ch1 @ notice ''gpt-5'' # ch2 \<and>
      merge_updates (\<lambda>v. ''?'') gpt4o_data
        ([(''gpt-4o'', [(''input_per_mtok'', PFloat (Finite 1 1))])] @ []) =
        (gpt4o_merged, Inr (ch1 @ ch2)))"
proof -
  have split: "new_model_update =
      [(''gpt-4o'', [(''input_per_mtok'', PFloat (Finite 1 1))])] @
      (''gpt-5'', [(''input_per_mtok'', PFloat (Finite 5 (- 2)))]) # []"
    by (simp add: new_model_update_def)
  have absent: "\<not> has_model gpt4o_data ''gpt-5''"
    by (simp add: has_model_def gpt4o_data_def)
  note frame = merge_frame [of "\<lambda>v. ''?''" gpt4o_data new_model_update]
  from frame new_model_run split absent
  have notice: "\<exists>ch1 ch2.
      [''  gpt-4o: input_per_mtok $2.5 -> $2.0'',
       ''  NEW MODEL FOUND: gpt-5 (add manually to data.json)''] =
        ch1 @ notice ''gpt-5'' # ch2 \<and>
      merge_updates (\<lambda>v. ''?'') gpt4o_data
        ([(''gpt-4o'', [(''input_per_mtok'', PFloat (Finite 1 1))])] @ []) =
        (gpt4o_merged, Inr (ch1 @ ch2))"
    by blast
  from frame have "length (models gpt4o_merged) = length (models gpt4o_data) \<and>
      last_updated gpt4o_merged = last_updated gpt4o_data \<and>
      map other_fields (models gpt4o_merged) = map other_fields (models gpt4o_data)"
    by (simp add: new_model_run)
  then show ?thesis using notice new_model_run absent by blast
qed

text \<open>
  C7, as the code has it. In a dataset whose record for \<^verbatim>\<open>gpt-4o\<close> has
  \<^verbatim>\<open>input_per_mtok\<close> 2.50, the merge of \<^verbatim>\<open>{"gpt-4o": {"input_per_mtok": 2.00}}\<close> stores
  2.00 in that field of that record, keeps the other fields of the record and the other
  records, and reports one line, which reads
  \<^verbatim>\<open>  gpt-4o: input_per_mtok $2.5 -> $2.0\<close>: two spaces first, and the new price as
  Python prints the float.
\<close>

theorem merge_gpt4o:
  assumes idx: "model_index (models d) = Inr idx"
    and i: "idx (PyStr ''gpt-4o'') = Some i"
    and old: "dict_get (models d ! i) ''input_per_mtok'' = PyNum (PFloat (Finite 5 (- 1)))"
  shows "merge_updates rp d gpt4o_update =
           (d\<lparr>models := (models d)
               [i := AList.update ''input_per_mtok'' (PyNum (PFloat (Finite 1 1)))
                       (models d ! i)]\<rparr>,
            Inr [''  gpt-4o: input_per_mtok $2.5 -> $2.0'']) \<and>
         i < length (models d) \<and>
         dict_get
           (AList.update ''input_per_mtok'' (PyNum (PFloat (Finite 1 1))) (models d ! i))
           ''input_per_mtok'' = PyNum (PFloat (Finite 1 1)) \<and>
         other_fields
           (AList.update ''input_per_mtok'' (PyNum (PFloat (Finite 1 1))) (models d ! i)) =
           other_fields (models d ! i)"
proof -
  have ne: "py_ne (PFloat (Finite 1 1)) (PyNum (PFloat (Finite 5 (- 1))))"
    by (simp add: num_eq_def bin_eq_def)
  have inp: "merge_field rp ''gpt-4o'' [(''input_per_mtok'', PFloat (Finite 1 1))]
               ''input_per_mtok'' (models d ! i, []) =
             (AList.update ''input_per_mtok'' (PyNum (PFloat (Finite 1 1))) (models d ! i),
              [''  gpt-4o: input_per_mtok $2.5 -> $2.0''])"
    using ne by (simp add: merge_field_def old py_str_def float_repr_2_5 float_repr_2_00
        del: py_ne.simps)
  have out: "merge_field rp ''gpt-4o'' [(''input_per_mtok'', PFloat (Finite 1 1))]
               ''output_per_mtok'' mc = mc" for mc
    by (simp add: merge_field_def)
  have "merge_updates rp d gpt4o_update =
           (d\<lparr>models := (models d)
               [i := AList.update ''input_per_mtok'' (PyNum (PFloat (Finite 1 1)))
                       (models d ! i)]\<rparr>,
            Inr [''  gpt-4o: input_per_mtok $2.5 -> $2.0''])"
    by (simp add: merge_updates_def idx gpt4o_update_def merge_item_def i inp out)
  moreover have "i < length (models d)"
    using model_index_pos [OF idx i] by simp
  moreover have
    "other_fields
       (AList.update ''input_per_mtok'' (PyNum (PFloat (Finite 1 1))) (models d ! i)) =
     other_fields (models d ! i)"
    by (simp add: other_fields_def filter_update_other)
  ultimately show ?thesis by (simp add: dict_get_update_same)
qed

theorem merge_gpt4o_witness:
  "model_index (models gpt4o_data) = Inr gpt4o_index \<and>
   gpt4o_index (PyStr ''gpt-4o'') = Some 0 \<and>
   dict_get (models gpt4o_data ! 0) ''input_per_mtok'' = PyNum (PFloat (Finite 5 (- 1))) \<and>
   merge_updates (\<lambda>v. ''?'') gpt4o_data gpt4o_update =
     (gpt4o_merged, Inr [''  gpt-4o: input_per_mtok $2.5 -> $2.0''])"
proof -
  have i: "gpt4o_index (PyStr ''gpt-4o'') = Some 0"
    by (simp add: gpt4o_index_def)
  have old: "dict_get (models gpt4o_data ! 0) ''input_per_mtok'' = PyNum (PFloat (Finite 5 (- 1)))"
    by (simp add: gpt4o_data_def dict_get_def)
  show ?thesis
    using merge_gpt4o [OF gpt4o_data_index i old, of "\<lambda>v. ''?''"] gpt4o_data_index i old
    by (simp add: gpt4o_data_def gpt4o_merged_def)
qed

text \<open>
  C7 as stated fails on its own example: the line that the merge reports is not the line
  of the claim.
\<close>

theorem merge_gpt4o_line_counterexample:
  "merge_updates (\<lambda>v. ''?'') gpt4o_data gpt4o_update =
     (gpt4o_merged, Inr [''  gpt-4o: input_per_mtok $2.5 -> $2.0'']) \<and>
   ''  gpt-4o: input_per_mtok $2.5 -> $2.0'' \<noteq> ''gpt-4o: input_per_mtok $2.5 -> $2.00''"
  by (simp add: gpt4o_run)

section \<open>Properties of the parsers and of a refresh run\<close>

lemma parsers_empty:
  "map_of (PARSERS w) p = Some parser \<Longrightarrow> fst (parser html) = []"
  by (auto simp: PARSERS_def parse_openai_def parse_anthropic_def parse_google_def
      parse_mistral_def parse_deepseek_def parse_cohere_def parse_fireworks_def Let_def
      split: if_splits)

lemma dict_update_empty: "dict_update all_updates [] = all_updates"
  by (simp add: dict_update_def)

lemma fetch_all_same:
  "fetch_all w urls all_updates = Inr all' \<Longrightarrow> all' = all_updates"
proof (induction urls arbitrary: all_updates)
  case Nil
  then show ?case by simp
next
  case (Cons pu rest)
  have step: "dict_update all_updates (fst (parser html)) = all_updates"
    if "map_of (PARSERS w) (fst pu) = Some parser" for parser html
    using parsers_empty [OF that, of html] by (simp add: dict_update_empty)
  from Cons.prems show ?case
    by (auto simp: step split: sum.splits option.splits dest: Cons.IH)
qed

section \<open>Properties of the handler\<close>

lemma outbound_cors: "outbound_calls (cors_headers @ es) = outbound_calls es"
  by (simp add: cors_headers_def)



lemma do_POST_loads_raises:
  assumes "path rq = ''/proxy''" "read_body lib rq = Inr raw"
    "json_loads lib raw = Inl e" "e \<noteq> JSONDecodeError"
  shows "do_POST lib rq = ([], Some e)"
  using assms by (cases e) (simp_all add: do_POST_def)




text \<open>Every call that a run makes to the target goes to an allowlisted host.\<close>

lemma relay_outbound:
  "req \<in> set (outbound_calls (fst (relay lib url headers body))) \<Longrightarrow> full_url req = url"
  by (auto simp: relay_def Let_def make_request_def outbound_cors
      split: option.splits pyval.splits sum.splits exn.splits if_splits)

lemma outbound_only_allowlisted:
  assumes "req \<in> set (outbound_calls (fst (do_POST lib rq)))"
  shows "\<exists>h \<in> set ALLOWED_HOSTS. urlparse_hostname lib (full_url req) = Inr (Some h)"
proof -
  from assms obtain raw payload host where
    "urlparse_hostname lib (payload_get payload ''url'' (PyStr [])) = Inr host"
    "host \<in> set (map Some ALLOWED_HOSTS)"
    "req \<in> set (outbound_calls (fst (relay lib (payload_get payload ''url'' (PyStr []))
             (payload_get payload ''headers'' (PyDict []))
             (payload_get payload ''body'' (PyStr [])))))"
    by (auto simp: do_POST_def Let_def outbound_cors
        split: if_splits sum.splits exn.splits pyval.splits)
  then show ?thesis using relay_outbound by fastforce
qed

subsection \<open>The concrete requests\<close>






section \<open>The claims on the proxy\<close>





text \<open>
  C3. A POST to \<^verbatim>\<open>/proxy\<close> whose body is not valid JSON should be answered with status
  400 and the body \<^verbatim>\<open>{"error":"Invalid JSON"}\<close>, and the handler does so where
  \<^verbatim>\<open>json.loads\<close> raises \<^verbatim>\<open>JSONDecodeError\<close> (lemma \<open>do_POST_malformed\<close>). It misses the
  other exceptions of \<^verbatim>\<open>json.loads\<close> (lemma \<open>do_POST_loads_raises\<close>): on the body of the
  single byte \<^verbatim>\<open>0xFF\<close>, which is not JSON, the decoder raises \<^verbatim>\<open>UnicodeDecodeError\<close>, the
  exception leaves the handler, and no status line and no body is sent.
\<close>

theorem undecodable_body_no_400:
  "json_loads example_lib [CHR 0xFF] = Inl UnicodeDecodeError \<and>
   do_POST example_lib undecodable_request = ([], Some UnicodeDecodeError) \<and>
   statuses (fst (do_POST example_lib undecodable_request)) = [] \<and>
   written (fst (do_POST example_lib undecodable_request)) = []"
proof -
  have body: "read_body example_lib undecodable_request = Inr [CHR 0xFF]"
    by (simp add: undecodable_request_def read_body_def example_lib_def digits_int_def
        rfile_read_def)
  have loads: "json_loads example_lib [CHR 0xFF] = Inl UnicodeDecodeError"
    by (simp add: example_lib_def example_loads_def)
  have "do_POST example_lib undecodable_request = ([], Some UnicodeDecodeError)"
    by (rule do_POST_loads_raises [OF _ body loads]) (simp_all add: undecodable_request_def)
  then show ?thesis using loads by simp
qed








section \<open>The claim on the parsers\<close>

text \<open>
  C10. Each of the seven parsers returns the empty dict for every page text, whatever
  \<^verbatim>\<open>re.findall\<close> finds, and they are the seven entries of \<^verbatim>\<open>PARSERS\<close>. So the updates
  gathered by a run are empty and \<^verbatim>\<open>main\<close> does not call \<^verbatim>\<open>merge_updates\<close>: the run ends
  with the records it loaded and the date of the day, or with an exception, that of a
  fetch that \<^verbatim>\<open>fetch_url\<close> does not catch or that of \<^verbatim>\<open>print_diff\<close> on records that
  cannot be indexed.
\<close>

theorem parsers_never_update:
  "fst (parse_openai html) = [] \<and> fst (parse_anthropic html) = [] \<and>
   fst (parse_google html) = [] \<and> fst (parse_mistral html) = [] \<and>
   fst (parse_deepseek findall html) = [] \<and> fst (parse_cohere html) = [] \<and>
   fst (parse_fireworks html) = [] \<and>
   map (\<lambda>np. fst (snd np html)) (PARSERS w) = replicate 7 [] \<and>
   (case fetch_all w PRICING_URLS [] of
      Inl e \<Rightarrow> main w dry_run d = Inl e
    | Inr all_updates \<Rightarrow>
        all_updates = [] \<and>
        main w dry_run d =
          (case model_index (models d) of
             Inl e \<Rightarrow> Inl e
           | Inr idx \<Rightarrow>
               Inr (d\<lparr>last_updated := today w\<rparr>,
                    if dry_run then None else Some (d\<lparr>last_updated := today w\<rparr>))))"
proof -
  have parsers: "fst (parse_openai html) = [] \<and> fst (parse_anthropic html) = [] \<and>
   fst (parse_google html) = [] \<and> fst (parse_mistral html) = [] \<and>
   fst (parse_deepseek findall html) = [] \<and> fst (parse_cohere html) = [] \<and>
   fst (parse_fireworks html) = []"
    by (simp add: parse_openai_def parse_anthropic_def parse_google_def
      parse_mistral_def parse_deepseek_def parse_cohere_def parse_fireworks_def Let_def)
  have table: "map (\<lambda>np. fst (snd np html)) (PARSERS w) = replicate 7 []"
    by (simp add: PARSERS_def parse_openai_def parse_anthropic_def parse_google_def
      parse_mistral_def parse_deepseek_def parse_cohere_def parse_fireworks_def Let_def
      numeral_eq_Suc)
  have run: "(case fetch_all w PRICING_URLS [] of
      Inl e \<Rightarrow> main w dry_run d = Inl e
    | Inr all_updates \<Rightarrow>
        all_updates = [] \<and>
        main w dry_run d =
          (case model_index (models d) of
             Inl e \<Rightarrow> Inl e
           | Inr idx \<Rightarrow>
               Inr (d\<lparr>last_updated := today w\<rparr>,
                    if dry_run then None else Some (d\<lparr>last_updated := today w\<rparr>))))"
  proof (cases "fetch_all w PRICING_URLS []")
    case (Inl e)
    then show ?thesis by (simp add: main_def)
  next
    case (Inr all_updates)
    then have "all_updates = []" by (rule fetch_all_same)
    then show ?thesis using Inr
      by (simp add: main_def Let_def print_diff_def split: sum.splits)
  qed
  show ?thesis using parsers table run by simp
qed

text \<open>
  A run on the concrete dataset in which every page is fetched and the pattern of
  \<^verbatim>\<open>parse_deepseek\<close> matches: it ends with the loaded records and the new date, and
  writes them.
\<close>

theorem parsers_never_update_witness:
  "main \<lparr>http_get = (\<lambda>url. Inr ''$0.28 per million tokens''),
         re_findall = (\<lambda>pattern text. [''0.28'']),
         py_repr = (\<lambda>v. ''?''), today = ''2025-02-01''\<rparr> False gpt4o_data =
     Inr (gpt4o_data\<lparr>last_updated := ''2025-02-01''\<rparr>,
          Some (gpt4o_data\<lparr>last_updated := ''2025-02-01''\<rparr>))"
proof -
  let ?w = "\<lparr>http_get = (\<lambda>url. Inr ''$0.28 per million tokens''),
             re_findall = (\<lambda>pattern text. [''0.28'']),
             py_repr = (\<lambda>v. ''?''), today = ''2025-02-01''\<rparr>"
  have fetch: "fetch_all ?w PRICING_URLS [] = Inr []"
    by (simp add: PRICING_URLS_def fetch_url_def PARSERS_def parse_openai_def
        parse_anthropic_def parse_google_def parse_mistral_def parse_deepseek_def
        parse_cohere_def parse_fireworks_def dict_update_def Let_def)
  show ?thesis
    using parsers_never_update [of "[]" "\<lambda>pattern text. []" ?w False gpt4o_data]
    by (simp add: fetch gpt4o_data_index)
qed

end
